theory Spec2Isabelle
  imports Complex_Main "HOL-Library.Word"
begin

section \<open>Detection boxes and the box tracker\<close>

text \<open>
  A detection box is the Python tuple \<open>(x, y, w, h)\<close> of integers that the OCR loops
  build from the columns \<open>left\<close>, \<open>top\<close>, \<open>width\<close>, \<open>height\<close> of the OCR output.
  Python's \<open>/\<close> and \<open>np.sqrt\<close> compute in double precision; the model computes
  the same expressions over the reals.
\<close>

type_synonym box = "int \<times> int \<times> int \<times> int"

text \<open>\<open>is_matching_box(box1, box2, threshold=10)\<close>.\<close>

definition is_matching_box :: "box \<Rightarrow> box \<Rightarrow> real \<Rightarrow> bool" where
  "is_matching_box box1 box2 threshold =
     (case box1 of (x1, y1, w1, h1) \<Rightarrow>
      case box2 of (x2, y2, w2, h2) \<Rightarrow>
        let center1 = (real_of_int x1 + real_of_int w1 / 2, real_of_int y1 + real_of_int h1 / 2);
            center2 = (real_of_int x2 + real_of_int w2 / 2, real_of_int y2 + real_of_int h2 / 2);
            distance = sqrt ((fst center1 - fst center2)\<^sup>2 + (snd center1 - snd center2)\<^sup>2)
        in distance < threshold)"

text \<open>
  \<open>update_word_boxes(last_word_boxes, current_word_boxes)\<close>: the \<open>for\<close> loop appends
  to \<open>updated_word_boxes\<close> every current box for which \<open>any(...)\<close> over the previous
  boxes is false (with the default threshold 10), then the previous list is appended.
\<close>

definition update_word_boxes :: "box list \<Rightarrow> box list \<Rightarrow> box list" where
  "update_word_boxes last_word_boxes current_word_boxes =
     (let updated_word_boxes =
            foldl (\<lambda>updated box.
                     if \<not> list_ex (\<lambda>prev_box. is_matching_box box prev_box 10) last_word_boxes
                     then updated @ [box] else updated)
                  [] current_word_boxes
      in updated_word_boxes @ last_word_boxes)"

section \<open>Word variations\<close>

text \<open>
  Text is modelled as ASCII strings: \<open>str.lower\<close>, \<open>str.upper\<close> and
  \<open>str.capitalize\<close> map the 26 letters and leave every other character as it is.
\<close>

definition lower_char :: "char \<Rightarrow> char" where
  "lower_char c =
     (case map_of (zip ''ABCDEFGHIJKLMNOPQRSTUVWXYZ'' ''abcdefghijklmnopqrstuvwxyz'') c of
        Some d \<Rightarrow> d | None \<Rightarrow> c)"

definition upper_char :: "char \<Rightarrow> char" where
  "upper_char c =
     (case map_of (zip ''abcdefghijklmnopqrstuvwxyz'' ''ABCDEFGHIJKLMNOPQRSTUVWXYZ'') c of
        Some d \<Rightarrow> d | None \<Rightarrow> c)"

definition lower :: "string \<Rightarrow> string" where
  "lower s = map lower_char s"

definition upper :: "string \<Rightarrow> string" where
  "upper s = map upper_char s"

definition capitalize :: "string \<Rightarrow> string" where
  "capitalize s = (case s of [] \<Rightarrow> [] | c # cs \<Rightarrow> upper_char c # map lower_char cs)"

text \<open>The list \<open>punctuation_marks\<close> of the source; its last mark is the apostrophe.\<close>

definition punctuation_marks :: "string list" where
  "punctuation_marks = [''.'', '','', ''!'', ''?'', ''--'', ''-'', [CHR 0x27]]"

definition default_words :: "string list" where
  "default_words = [''apple'', ''banana'', ''password'']"

text \<open>The body of the \<open>for word in words_to_redact\<close> loop: what one word appends.\<close>

definition variations_of_word :: "string \<Rightarrow> string list" where
  "variations_of_word word =
     [lower word, upper word, capitalize word]
     @ concat (map (\<lambda>mark. [lower word @ mark, upper word @ mark, capitalize word @ mark])
                   punctuation_marks)
     @ [lower word @ ''s'', upper word @ ''S'', capitalize word @ ''s'']
     @ concat (map (\<lambda>mark. [lower word @ ''s'' @ mark, upper word @ ''S'' @ mark,
                              capitalize word @ ''s'' @ mark])
                   punctuation_marks)"

text \<open>
  \<open>generate_word_variations(words_to_redact)\<close>: the argument is first extended with the
  three default words (in place; the caller's list stays extended), then every word of
  the extended list contributes its variations. No operation on a list of strings raises
  here, so the \<open>except\<close> branch is not reached.
\<close>

definition generate_word_variations :: "string list \<Rightarrow> string list" where
  "generate_word_variations words_to_redact =
     concat (map variations_of_word (words_to_redact @ default_words))"

section \<open>OCR output and exact-mode matching\<close>

text \<open>
  \<open>pytesseract.image_to_data(..., output_type=Output.DICT)\<close> returns a dictionary of
  parallel lists. The OCR engine is outside the program; the model takes its output as
  given. Confidences are integers (\<open>int(data['conf'][i])\<close>).
\<close>

record ocr_data =
  d_text :: "string list"
  d_conf :: "int list"
  d_left :: "int list"
  d_top :: "int list"
  d_width :: "int list"
  d_height :: "int list"

datatype py_error = IndexError | ReError

definition py_index :: "'a list \<Rightarrow> nat \<Rightarrow> py_error + 'a" where
  "py_index xs i = (if i < length xs then Inr (xs ! i) else Inl IndexError)"

text \<open>
  The loop \<open>for i, text in enumerate(data['text'])\<close> shared by both OCR functions; they
  differ in the test on the text only. \<open>and\<close> reads the confidence only when the text
  matched, and the four coordinates only when the confidence is positive.
\<close>

fun ocr_loop :: "(string \<Rightarrow> bool) \<Rightarrow> ocr_data \<Rightarrow> nat \<Rightarrow> string list \<Rightarrow> box list
                   \<Rightarrow> py_error + box list" where
  "ocr_loop matches data i [] word_boxes = Inr word_boxes"
| "ocr_loop matches data i (text # rest) word_boxes =
     (if matches text then
        (case py_index (d_conf data) i of
           Inl e \<Rightarrow> Inl e
         | Inr c \<Rightarrow>
             if 0 < c then
               (case py_index (d_left data) i of Inl e \<Rightarrow> Inl e | Inr x \<Rightarrow>
                case py_index (d_top data) i of Inl e \<Rightarrow> Inl e | Inr y \<Rightarrow>
                case py_index (d_width data) i of Inl e \<Rightarrow> Inl e | Inr w \<Rightarrow>
                case py_index (d_height data) i of Inl e \<Rightarrow> Inl e | Inr h \<Rightarrow>
                  ocr_loop matches data (Suc i) rest (word_boxes @ [(x, y, w, h)]))
             else ocr_loop matches data (Suc i) rest word_boxes)
      else ocr_loop matches data (Suc i) rest word_boxes)"

text \<open>\<open>perform_ocr\<close>, from the OCR output on: an exception ends in \<open>return []\<close>.\<close>

definition perform_ocr :: "ocr_data \<Rightarrow> string list \<Rightarrow> box list" where
  "perform_ocr data words_to_detect =
     (case ocr_loop (\<lambda>text. lower text \<in> set words_to_detect) data 0 (d_text data) [] of
        Inl e \<Rightarrow> []
      | Inr word_boxes \<Rightarrow> word_boxes)"

text \<open>The OCR output is well formed when its six columns have one entry per token.\<close>

definition well_formed :: "ocr_data \<Rightarrow> bool" where
  "well_formed data =
     (length (d_conf data) = length (d_text data) \<and>
      length (d_left data) = length (d_text data) \<and>
      length (d_top data) = length (d_text data) \<and>
      length (d_width data) = length (d_text data) \<and>
      length (d_height data) = length (d_text data))"

definition box_at :: "ocr_data \<Rightarrow> nat \<Rightarrow> box" where
  "box_at data i = (d_left data ! i, d_top data ! i, d_width data ! i, d_height data ! i)"

section \<open>Regular expressions: the fragment of Python's \<open>re\<close> that the program uses\<close>

text \<open>
  \<open>perform_ocr_privacy_mode\<close> hands every string of its pattern list to \<open>re.compile\<close>
  and tests each token with \<open>pattern.match\<close>, which looks for a match that starts at
  the token's first character. The module \<open>re\<close> is a library; the model covers a
  fragment of its pattern language: literals, \<open>.\<close>, \<open>^\<close>, \<open>$\<close>, the escapes
  \<open>\d \D \s \S \w \W \b\<close> and escaped punctuation, character sets with ranges and
  negation, groups \<open>(...)\<close> and \<open>(?:...)\<close>, lookahead \<open>(?=...)\<close> and \<open>(?!...)\<close>, alternation,
  and the quantifiers \<open>* + ? {m} {m,} {,n} {m,n}\<close> with their lazy forms. A pattern
  outside the fragment is reported as such (\<open>Unsupported\<close>), never guessed at.
  Character classes are the ASCII ones.
\<close>

definition is_digit :: "char \<Rightarrow> bool" where
  "is_digit c = (c \<in> set ''0123456789'')"

definition is_space :: "char \<Rightarrow> bool" where
  "is_space c = (c \<in> set [CHR 0x20, CHR 0x09, CHR 0x0A, CHR 0x0B, CHR 0x0C, CHR 0x0D,
                             CHR 0x1C, CHR 0x1D, CHR 0x1E, CHR 0x1F])"

definition is_alnum :: "char \<Rightarrow> bool" where
  "is_alnum c = (c \<in> set ''abcdefghijklmnopqrstuvwxyzABCDEFGHIJKLMNOPQRSTUVWXYZ0123456789'')"

definition is_word :: "char \<Rightarrow> bool" where
  "is_word c = (is_alnum c \<or> c = CHR ''_'')"

text \<open>
  The members of a character set: a character, a range, or a category (\<open>True\<close> for
  \<open>\d\<close>, \<open>\s\<close>, \<open>\w\<close>; \<open>False\<close> for \<open>\D\<close>, \<open>\S\<close>, \<open>\W\<close>).
\<close>

datatype cset = CLit char | CRange char char | CDigit bool | CSpace bool | CWord bool

fun in_cset :: "cset \<Rightarrow> char \<Rightarrow> bool" where
  "in_cset (CLit a) c = (c = a)"
| "in_cset (CRange a b) c = (of_char a \<le> (of_char c :: nat) \<and> (of_char c :: nat) \<le> of_char b)"
| "in_cset (CDigit pos) c = (is_digit c = pos)"
| "in_cset (CSpace pos) c = (is_space c = pos)"
| "in_cset (CWord pos) c = (is_word c = pos)"

text \<open>
  Compiled patterns. \<open>Sym neg items\<close> is one character in the set (not in it when
  \<open>neg\<close>); \<open>Boundary\<close> is \<open>\b\<close>; \<open>Rep r lo hi\<close> repeats \<open>r\<close> from \<open>lo\<close> to \<open>hi\<close>
  times (\<open>None\<close>: no upper bound); \<open>Ahead True r\<close> is \<open>(?=r)\<close>, \<open>Ahead False r\<close> is
  \<open>(?!r)\<close>.
\<close>

datatype regex =
    Sym bool "cset list"
  | AnyChar
  | Boundary
  | Bol
  | Eol
  | Eps
  | Cat regex regex
  | Alt regex regex
  | Rep regex nat "nat option"
  | Ahead bool regex

text \<open>
  Matching computes, for a pattern and a start position in the text, the positions at
  which a match of the pattern can end. Without back-references this decides whether
  the backtracking matcher finds a match. \<open>iterate\<close> runs the mandatory repetitions,
  \<open>upto_ends\<close> the optional ones below a bound, \<open>star_ends\<close> the unbounded ones: there a
  repetition that consumes nothing reaches no new position, so only repetitions that
  advance are followed, and the text's length bounds their number.
\<close>

primrec iterate :: "(nat \<Rightarrow> nat list) \<Rightarrow> nat \<Rightarrow> nat list \<Rightarrow> nat list" where
  "iterate f 0 js = js"
| "iterate f (Suc k) js = iterate f k (concat (map f js))"

primrec upto_ends :: "(nat \<Rightarrow> nat list) \<Rightarrow> nat \<Rightarrow> nat list \<Rightarrow> nat list" where
  "upto_ends f 0 js = js"
| "upto_ends f (Suc k) js = js @ upto_ends f k (concat (map f js))"

primrec star_ends :: "(nat \<Rightarrow> nat list) \<Rightarrow> nat \<Rightarrow> nat list \<Rightarrow> nat list" where
  "star_ends f 0 js = js"
| "star_ends f (Suc k) js =
     js @ star_ends f k (concat (map (\<lambda>j. filter (\<lambda>j'. j < j') (f j)) js))"

definition rep_ends :: "(nat \<Rightarrow> nat list) \<Rightarrow> nat \<Rightarrow> nat \<Rightarrow> nat option \<Rightarrow> nat \<Rightarrow> nat list" where
  "rep_ends f n lo hi i =
     (case hi of
        None \<Rightarrow> star_ends f n (iterate f lo [i])
      | Some h \<Rightarrow> upto_ends f (h - lo) (iterate f lo [i]))"

definition at_boundary :: "string \<Rightarrow> nat \<Rightarrow> bool" where
  "at_boundary s i =
     ((0 < i \<and> i \<le> length s \<and> is_word (s ! (i - 1))) \<noteq> (i < length s \<and> is_word (s ! i)))"

primrec ends :: "regex \<Rightarrow> string \<Rightarrow> nat \<Rightarrow> nat list" where
  "ends (Sym neg items) s i =
     (if i < length s \<and> (list_ex (\<lambda>item. in_cset item (s ! i)) items \<noteq> neg) then [Suc i] else [])"
| "ends AnyChar s i = (if i < length s \<and> s ! i \<noteq> CHR 0x0A then [Suc i] else [])"
| "ends Boundary s i = (if at_boundary s i then [i] else [])"
| "ends Bol s i = (if i = 0 then [i] else [])"
| "ends Eol s i =
     (if i = length s \<or> (Suc i = length s \<and> s ! i = CHR 0x0A) then [i] else [])"
| "ends Eps s i = [i]"
| "ends (Cat r1 r2) s i = concat (map (ends r2 s) (ends r1 s i))"
| "ends (Alt r1 r2) s i = ends r1 s i @ ends r2 s i"
| "ends (Rep r lo hi) s i = rep_ends (ends r s) (length s) lo hi i"
| "ends (Ahead pos r) s i = (if (ends r s i \<noteq> []) = pos then [i] else [])"

text \<open>\<open>pattern.match(text)\<close> is not \<open>None\<close>: some match starts at position 0.\<close>

definition re_match :: "regex \<Rightarrow> string \<Rightarrow> bool" where
  "re_match r s = (ends r s 0 \<noteq> [])"

subsection \<open>Compiling a pattern string\<close>

text \<open>
  \<open>Malformed\<close>: \<open>re.compile\<close> raises \<open>re.error\<close>. \<open>Unsupported\<close>: the pattern is
  outside the fragment, and the model says nothing about it.
\<close>

datatype fail = Malformed | Unsupported

datatype gkind = Plain | Look bool

datatype tok = TAtom regex | TAssert regex | TOpen gkind | TClose | TBar | TQuant nat "nat option"

text \<open>
  The scanner reads the pattern one character at a time. Its modes: at top level;
  just after a quantifier (a following \<open>?\<close> makes it lazy, which does not change whether
  a match exists); after a backslash; after \<open>(\<close> and after \<open>(?\<close>; inside a character
  set (negated or not, the members read so far, and the member just read, which a
  \<open>-\<close> may still turn into a range); inside \<open>{...}\<close> before and after the comma.
\<close>

datatype mode =
    Top
  | AfterQuant
  | Esc
  | Open1
  | Open2
  | SetStart
  | InSet bool "cset list" "cset option"
  | SetEsc bool "cset list"
  | SetDash bool "cset list" cset
  | SetDashEsc bool "cset list" cset
  | Brace1 "nat option"
  | Brace2 "nat option" "nat option"

definition lit :: "char \<Rightarrow> regex" where
  "lit c = Sym False [CLit c]"

definition category :: "char \<Rightarrow> cset option" where
  "category c =
     (if c = CHR ''d'' then Some (CDigit True) else if c = CHR ''D'' then Some (CDigit False)
      else if c = CHR ''s'' then Some (CSpace True) else if c = CHR ''S'' then Some (CSpace False)
      else if c = CHR ''w'' then Some (CWord True) else if c = CHR ''W'' then Some (CWord False)
      else None)"

text \<open>
  An escaped character that is no ASCII letter or digit stands for itself; the other
  letter and digit escapes (\<open>\A\<close>, \<open>\Z\<close>, \<open>\B\<close>, \<open>\n\<close>, back-references, ...) are
  outside the fragment.
\<close>

definition top_escape :: "char \<Rightarrow> fail + tok" where
  "top_escape c =
     (case category c of
        Some item \<Rightarrow> Inr (TAtom (Sym False [item]))
      | None \<Rightarrow>
          if c = CHR ''b'' then Inr (TAssert Boundary)
          else if is_alnum c then Inl Unsupported
          else Inr (TAtom (lit c)))"

definition class_escape :: "char \<Rightarrow> fail + cset" where
  "class_escape c =
     (case category c of
        Some item \<Rightarrow> Inr item
      | None \<Rightarrow> if is_alnum c then Inl Unsupported else Inr (CLit c))"

text \<open>Repetition counts above 9999 are outside the fragment.\<close>

definition add_digit :: "nat option \<Rightarrow> char \<Rightarrow> fail + nat option" where
  "add_digit n c =
     (let v = (case n of None \<Rightarrow> 0 | Some m \<Rightarrow> 10 * m) + (of_char c - 48)
      in if v \<le> 9999 then Inr (Some v) else Inl Unsupported)"

text \<open>A range needs two characters in order (\<open>bad character range\<close> otherwise).\<close>

definition mk_range :: "cset \<Rightarrow> cset \<Rightarrow> fail + cset" where
  "mk_range code1 code2 =
     (case (code1, code2) of
        (CLit lo, CLit hi) \<Rightarrow>
          if (of_char hi :: nat) < of_char lo then Inl Malformed else Inr (CRange lo hi)
      | _ \<Rightarrow> Inl Malformed)"

definition top_step :: "char \<Rightarrow> fail + tok list \<times> mode" where
  "top_step c =
     (if c = CHR 0x5C then Inr ([], Esc)
      else if c = CHR ''['' then Inr ([], SetStart)
      else if c = CHR ''('' then Inr ([], Open1)
      else if c = CHR '')'' then Inr ([TClose], Top)
      else if c = CHR ''|'' then Inr ([TBar], Top)
      else if c = CHR ''*'' then Inr ([TQuant 0 None], AfterQuant)
      else if c = CHR ''+'' then Inr ([TQuant 1 None], AfterQuant)
      else if c = CHR ''?'' then Inr ([TQuant 0 (Some 1)], AfterQuant)
      else if c = CHR ''{'' then Inr ([], Brace1 None)
      else if c = CHR ''.'' then Inr ([TAtom AnyChar], Top)
      else if c = CHR ''^'' then Inr ([TAssert Bol], Top)
      else if c = CHR ''$'' then Inr ([TAssert Eol], Top)
      else Inr ([TAtom (lit c)], Top))"

definition flush :: "cset list \<Rightarrow> cset option \<Rightarrow> cset list" where
  "flush items pending = (case pending of None \<Rightarrow> items | Some item \<Rightarrow> items @ [item])"

text \<open>
  One character in one mode. A possessive quantifier (\<open>*+\<close>), a group that starts with
  \<open>(?\<close> other than \<open>(?:\<close>, \<open>(?=\<close>, \<open>(?!\<close>, and a \<open>{\<close> that opens no well-formed
  repetition are outside the fragment. In a set, \<open>]\<close> closes it unless it is the first
  member.
\<close>

fun step :: "mode \<Rightarrow> char \<Rightarrow> fail + tok list \<times> mode" where
  "step Top c = top_step c"
| "step AfterQuant c =
     (if c = CHR ''?'' then Inr ([], Top)
      else if c = CHR ''+'' then Inl Unsupported
      else top_step c)"
| "step Esc c = (case top_escape c of Inl e \<Rightarrow> Inl e | Inr t \<Rightarrow> Inr ([t], Top))"
| "step Open1 c =
     (if c = CHR ''?'' then Inr ([], Open2)
      else (case top_step c of Inl e \<Rightarrow> Inl e | Inr (ts, m) \<Rightarrow> Inr (TOpen Plain # ts, m)))"
| "step Open2 c =
     (if c = CHR '':'' then Inr ([TOpen Plain], Top)
      else if c = CHR ''='' then Inr ([TOpen (Look True)], Top)
      else if c = CHR ''!'' then Inr ([TOpen (Look False)], Top)
      else Inl Unsupported)"
| "step SetStart c =
     (if c = CHR ''^'' then Inr ([], InSet True [] None)
      else if c = CHR 0x5C then Inr ([], SetEsc False [])
      else Inr ([], InSet False [] (Some (CLit c))))"
| "step (InSet neg items pending) c =
     (if c = CHR ''-'' \<and> pending \<noteq> None then
        (case pending of Some code1 \<Rightarrow> Inr ([], SetDash neg items code1)
                       | None \<Rightarrow> Inl Malformed)
      else if c = CHR '']'' \<and> flush items pending \<noteq> [] then
        Inr ([TAtom (Sym neg (flush items pending))], Top)
      else if c = CHR 0x5C then Inr ([], SetEsc neg (flush items pending))
      else Inr ([], InSet neg (flush items pending) (Some (CLit c))))"
| "step (SetEsc neg items) c =
     (case class_escape c of Inl e \<Rightarrow> Inl e | Inr item \<Rightarrow> Inr ([], InSet neg items (Some item)))"
| "step (SetDash neg items code1) c =
     (if c = CHR '']'' then Inr ([TAtom (Sym neg (items @ [code1, CLit (CHR ''-'')]))], Top)
      else if c = CHR 0x5C then Inr ([], SetDashEsc neg items code1)
      else (case mk_range code1 (CLit c) of
              Inl e \<Rightarrow> Inl e
            | Inr item \<Rightarrow> Inr ([], InSet neg (items @ [item]) None)))"
| "step (SetDashEsc neg items code1) c =
     (case class_escape c of
        Inl e \<Rightarrow> Inl e
      | Inr code2 \<Rightarrow>
          (case mk_range code1 code2 of
             Inl e \<Rightarrow> Inl e
           | Inr item \<Rightarrow> Inr ([], InSet neg (items @ [item]) None)))"
| "step (Brace1 lo) c =
     (if is_digit c then (case add_digit lo c of Inl e \<Rightarrow> Inl e | Inr n \<Rightarrow> Inr ([], Brace1 n))
      else if c = CHR '','' then Inr ([], Brace2 lo None)
      else if c = CHR ''}'' then
        (case lo of None \<Rightarrow> Inl Unsupported
                  | Some n \<Rightarrow> Inr ([TQuant n (Some n)], AfterQuant))
      else Inl Unsupported)"
| "step (Brace2 lo hi) c =
     (if is_digit c then (case add_digit hi c of Inl e \<Rightarrow> Inl e | Inr n \<Rightarrow> Inr ([], Brace2 lo n))
      else if c = CHR ''}'' then
        (let lo' = (case lo of None \<Rightarrow> 0 | Some n \<Rightarrow> n) in
         case hi of
           None \<Rightarrow> Inr ([TQuant lo' None], AfterQuant)
         | Some h \<Rightarrow> if h < lo' then Inl Malformed else Inr ([TQuant lo' (Some h)], AfterQuant))
      else Inl Unsupported)"

text \<open>
  The end of the pattern: inside an escape, a group opener or a set the pattern is
  malformed.
\<close>

fun finish :: "mode \<Rightarrow> fail + tok list" where
  "finish Top = Inr []"
| "finish AfterQuant = Inr []"
| "finish (Brace1 lo) = Inl Unsupported"
| "finish (Brace2 lo hi) = Inl Unsupported"
| "finish m = Inl Malformed"

fun lex :: "mode \<Rightarrow> string \<Rightarrow> fail + tok list" where
  "lex m [] = finish m"
| "lex m (c # cs) =
     (case step m c of
        Inl e \<Rightarrow> Inl e
      | Inr (ts, m') \<Rightarrow> (case lex m' cs of Inl e \<Rightarrow> Inl e | Inr ts' \<Rightarrow> Inr (ts @ ts')))"

text \<open>
  The parser keeps, for the group being read, its kind, the alternatives finished so
  far, the items of the current alternative (latest first) and what the latest item is:
  a quantifier needs an item to repeat (\<open>nothing to repeat\<close> at the start of a group or
  after an assertion, \<open>multiple repeat\<close> after a quantifier).
\<close>

datatype last = LNone | LAssert | LRepeat | LItem

type_synonym level = "gkind \<times> regex list \<times> regex list \<times> last"

definition mk_seq :: "regex list \<Rightarrow> regex" where
  "mk_seq rs = foldl (\<lambda>acc r. Cat r acc) Eps rs"

fun mk_alt :: "regex list \<Rightarrow> regex" where
  "mk_alt [] = Eps"
| "mk_alt [r] = r"
| "mk_alt (r # rs) = Alt r (mk_alt rs)"

definition build :: "regex list \<Rightarrow> regex list \<Rightarrow> regex" where
  "build alts sq = mk_alt (rev (mk_seq sq # alts))"

definition wrap :: "gkind \<Rightarrow> regex \<Rightarrow> regex" where
  "wrap k r = (case k of Plain \<Rightarrow> r | Look pos \<Rightarrow> Ahead pos r)"

fun parse :: "level list \<Rightarrow> level \<Rightarrow> tok list \<Rightarrow> fail + regex" where
  "parse stack (k, alts, sq, lst) [] =
     (if stack = [] then Inr (build alts sq) else Inl Malformed)"
| "parse stack (k, alts, sq, lst) (TAtom r # ts) = parse stack (k, alts, r # sq, LItem) ts"
| "parse stack (k, alts, sq, lst) (TAssert r # ts) = parse stack (k, alts, r # sq, LAssert) ts"
| "parse stack (k, alts, sq, lst) (TQuant lo hi # ts) =
     (case (lst, sq) of
        (LItem, r # sq') \<Rightarrow> parse stack (k, alts, Rep r lo hi # sq', LRepeat) ts
      | _ \<Rightarrow> Inl Malformed)"
| "parse stack (k, alts, sq, lst) (TBar # ts) = parse stack (k, mk_seq sq # alts, [], LNone) ts"
| "parse stack lv (TOpen k' # ts) = parse (lv # stack) (k', [], [], LNone) ts"
| "parse stack (k, alts, sq, lst) (TClose # ts) =
     (case stack of
        [] \<Rightarrow> Inl Malformed
      | (k0, alts0, sq0, lst0) # stack' \<Rightarrow>
          parse stack' (k0, alts0, wrap k (build alts sq) # sq0, LItem) ts)"

text \<open>
  \<open>re.compile(pattern)\<close>: \<open>None\<close> when the pattern is outside the fragment,
  \<open>Some (Inl ReError)\<close> when \<open>re.error\<close> is raised, \<open>Some (Inr r)\<close> when it compiles.
\<close>

definition re_compile :: "string \<Rightarrow> (py_error + regex) option" where
  "re_compile pattern =
     (case lex Top pattern of
        Inl Malformed \<Rightarrow> Some (Inl ReError)
      | Inl Unsupported \<Rightarrow> None
      | Inr ts \<Rightarrow>
          (case parse [] (Plain, [], [], LNone) ts of
             Inl Malformed \<Rightarrow> Some (Inl ReError)
           | Inl Unsupported \<Rightarrow> None
           | Inr r \<Rightarrow> Some (Inr r)))"

definition compiles :: "string \<Rightarrow> bool" where
  "compiles pattern = (case re_compile pattern of Some (Inr r) \<Rightarrow> True | _ \<Rightarrow> False)"

text \<open>\<open>re.compile(pattern).match(text)\<close> succeeds.\<close>

definition pattern_matches :: "string \<Rightarrow> string \<Rightarrow> bool" where
  "pattern_matches pattern text =
     (case re_compile pattern of Some (Inr r) \<Rightarrow> re_match r text | _ \<Rightarrow> False)"

section \<open>Privacy mode\<close>

text \<open>
  \<open>generate_patterns()\<close>: the three lists of raw pattern strings, character for
  character (\<open>CHR 0x5C\<close> is the backslash).
\<close>

definition phone_number_patterns :: "string list" where
  "phone_number_patterns =
     [[CHR 0x5C] @ ''b'' @ [CHR 0x5C] @ ''d{3}[-.'' @ [CHR 0x5C] @ ''s]?'' @ [CHR 0x5C] @ ''d{3}[-.''
        @ [CHR 0x5C] @ ''s]?'' @ [CHR 0x5C] @ ''d{4}'' @ [CHR 0x5C] @ ''b'',
      [CHR 0x5C] @ ''('' @ [CHR 0x5C] @ ''d{3}'' @ [CHR 0x5C] @ '')'' @ [CHR 0x5C] @ ''s*''
        @ [CHR 0x5C] @ ''d{3}[-.'' @ [CHR 0x5C] @ ''s]?'' @ [CHR 0x5C] @ ''d{4}'' @ [CHR 0x5C] @ ''b'']"

definition ssn_patterns :: "string list" where
  "ssn_patterns =
     [[CHR 0x5C] @ ''b'' @ [CHR 0x5C] @ ''d{3}[-.'' @ [CHR 0x5C] @ ''s]?'' @ [CHR 0x5C] @ ''d{2}[-.''
        @ [CHR 0x5C] @ ''s]?'' @ [CHR 0x5C] @ ''d{4}'' @ [CHR 0x5C] @ ''b'']"

definition ip_address_patterns :: "string list" where
  "ip_address_patterns =
     [[CHR 0x5C] @ ''b(?:'' @ [CHR 0x5C] @ ''d{1,3}'' @ [CHR 0x5C] @ ''.){3}'' @ [CHR 0x5C] @ ''d{1,3}''
        @ [CHR 0x5C] @ ''b'',
      [CHR 0x5C] @ ''b(?:'' @ [CHR 0x5C] @ ''d{1,3}'' @ [CHR 0x5C] @ ''.){3}'' @ [CHR 0x5C] @ ''d{1,3}(?![''
        @ [CHR 0x5C] @ ''d.])'' @ [CHR 0x5C] @ ''b'',
      [CHR 0x5C] @ ''b(?:[0-9a-fA-F]{1,4}:){7}[0-9a-fA-F]{1,4}'' @ [CHR 0x5C] @ ''b'']"

text \<open>
  The main program builds the list it hands to \<open>capture_screen\<close>: the word variations,
  and in privacy mode the same list extended with the phone, SSN and IP patterns.
\<close>

definition words_to_detect :: "string list \<Rightarrow> bool \<Rightarrow> string list" where
  "words_to_detect words_to_redact privacy_mode =
     (if privacy_mode
      then generate_word_variations words_to_redact
             @ phone_number_patterns @ ssn_patterns @ ip_address_patterns
      else generate_word_variations words_to_redact)"

text \<open>
  The list comprehension \<open>[re.compile(pattern) ... for pattern in patterns]\<close>: every
  entry is a string and is compiled, in order; the first failure ends it.
\<close>

fun compile_all :: "string list \<Rightarrow> (py_error + regex list) option" where
  "compile_all [] = Some (Inr [])"
| "compile_all (pattern # rest) =
     (case re_compile pattern of
        None \<Rightarrow> None
      | Some (Inl e) \<Rightarrow> Some (Inl e)
      | Some (Inr r) \<Rightarrow>
          (case compile_all rest of
             None \<Rightarrow> None
           | Some (Inl e) \<Rightarrow> Some (Inl e)
           | Some (Inr rs) \<Rightarrow> Some (Inr (r # rs))))"

text \<open>
  \<open>perform_ocr_privacy_mode\<close>, from the OCR output on. An exception (a pattern that
  does not compile, an index out of range) ends in \<open>return []\<close>. The result is \<open>None\<close>
  when a pattern is outside the modelled fragment.
\<close>

definition perform_ocr_privacy_mode :: "ocr_data \<Rightarrow> string list \<Rightarrow> box list option" where
  "perform_ocr_privacy_mode data patterns =
     (case compile_all patterns of
        None \<Rightarrow> None
      | Some (Inl e) \<Rightarrow> Some []
      | Some (Inr compiled_patterns) \<Rightarrow>
          Some (case ocr_loop (\<lambda>text. list_ex (\<lambda>pattern. re_match pattern text) compiled_patterns)
                       data 0 (d_text data) [] of
                  Inl e \<Rightarrow> []
                | Inr word_boxes \<Rightarrow> word_boxes))"

section \<open>Frames and redaction\<close>

text \<open>
  A frame is the array of pixels that \<open>np.array(sct.grab(region))\<close> returns: a list of
  rows, each a list of pixels. A pixel holds the three 8-bit colour channels to which
  the colour \<open>(255, 255, 255)\<close> that the source passes to \<open>cv2.rectangle\<close> refers; the
  alpha channel that the screen grabber adds is not modelled.

  \<open>cv2.rectangle(img, pt1, pt2, color, -1)\<close> fills the rectangle whose opposite corners
  are \<open>pt1\<close> and \<open>pt2\<close>, both corners included, clipped to the image; a point is
  \<open>(column, row)\<close>. The array is changed in place; the model returns the new frame.
\<close>

type_synonym pixel = "8 word \<times> 8 word \<times> 8 word"
type_synonym frame = "pixel list list"

definition rectangle :: "frame \<Rightarrow> int \<times> int \<Rightarrow> int \<times> int \<Rightarrow> pixel \<Rightarrow> frame" where
  "rectangle img pt1 pt2 color =
     map (\<lambda>(r, line).
            map (\<lambda>(c, p).
                   if min (fst pt1) (fst pt2) \<le> int c \<and> int c \<le> max (fst pt1) (fst pt2) \<and>
                      min (snd pt1) (snd pt2) \<le> int r \<and> int r \<le> max (snd pt1) (snd pt2)
                   then color else p)
                (enumerate 0 line))
         (enumerate 0 img)"

text \<open>
  \<open>redact_words(image, word_boxes, padding=1)\<close>. The \<open>time.sleep(0.1)\<close> after each
  rectangle changes no data; what it means for the clock of the capture loop is stated
  by \<open>clocks_feasible\<close>.
\<close>

definition redact_words :: "frame \<Rightarrow> box list \<Rightarrow> int \<Rightarrow> frame" where
  "redact_words img word_boxes padding =
     foldl (\<lambda>img (x, y, w, h).
              let x = x - padding;
                  y = y - padding;
                  w = w + 2 * padding;
                  h = h + 2 * padding
              in rectangle img (x, y) (x + w, y + h) (255, 255, 255))
           img word_boxes"

section \<open>The capture loop\<close>

text \<open>
  What one pass of \<open>while True\<close> reads from outside the program: the grabbed frame,
  the clock at the interval test and at the assignment to \<open>last_ocr_time\<close> (read only
  when the test succeeds), the OCR output for the frame (likewise), and the key that
  \<open>cv2.waitKey(1)\<close> returns. Clock values are reals, as \<open>time.time()\<close> returns them;
  they are inputs of the loop, and \<open>clocks_feasible\<close> below says which readings the
  program's own sleeping allows.
\<close>

record iteration =
  grabbed :: frame
  clock_test :: real
  clock_set :: real
  ocr :: ocr_data
  key :: int

text \<open>
  The loop's variables that live across passes: \<open>last_ocr_time\<close> and \<open>word_boxes\<close>
  (unbound, \<open>None\<close>, until the first OCR pass).
\<close>

record loop_state =
  last_ocr_time :: real
  word_boxes :: "box list option"

text \<open>Lines 94 to 97: the boxes an OCR pass detects, in either mode.\<close>

definition detect_boxes :: "bool \<Rightarrow> string list \<Rightarrow> ocr_data \<Rightarrow> box list option" where
  "detect_boxes privacy_mode words data =
     (if privacy_mode then perform_ocr_privacy_mode data words
      else Some (perform_ocr data words))"

text \<open>
  One pass: the state after it and the frame given to \<open>cv2.imshow\<close>. \<open>ocr_interval\<close> is
  \<open>0.05\<close>. The call of \<open>redact_words\<close> stands inside the \<open>if\<close>.
\<close>

definition loop_body :: "bool \<Rightarrow> string list \<Rightarrow> loop_state \<Rightarrow> iteration
                           \<Rightarrow> (loop_state \<times> frame) option" where
  "loop_body privacy_mode words st it =
     (let frame = grabbed it in
      if clock_test it - last_ocr_time st > 5 / 100 then
        (case detect_boxes privacy_mode words (ocr it) of
           None \<Rightarrow> None
         | Some boxes \<Rightarrow>
             Some (\<lparr>last_ocr_time = clock_set it, word_boxes = Some boxes\<rparr>,
                   redact_words frame boxes 1))
      else Some (st, frame))"

text \<open>
  The loop over the passes that the environment supplies, up to the pass in which the
  key is \<open>q\<close> (113) or Escape (27). The result lists, for every pass run, the state
  after it and the frame shown.
\<close>

fun capture_loop :: "bool \<Rightarrow> string list \<Rightarrow> loop_state \<Rightarrow> iteration list
                       \<Rightarrow> (loop_state \<times> frame) list option" where
  "capture_loop privacy_mode words st [] = Some []"
| "capture_loop privacy_mode words st (it # rest) =
     (case loop_body privacy_mode words st it of
        None \<Rightarrow> None
      | Some (st', shown) \<Rightarrow>
          if key it = 113 \<or> key it = 27 then Some [(st', shown)]
          else (case capture_loop privacy_mode words st' rest of
                  None \<Rightarrow> None
                | Some trace \<Rightarrow> Some ((st', shown) # trace)))"

text \<open>
  \<open>capture_screen\<close>, from the first clock reading \<open>t0\<close> on (\<open>last_ocr_time = time.time()\<close>
  before the loop).
\<close>

definition capture_screen :: "real \<Rightarrow> string list \<Rightarrow> bool \<Rightarrow> iteration list
                                \<Rightarrow> (loop_state \<times> frame) list option" where
  "capture_screen t0 words privacy_mode its =
     capture_loop privacy_mode words \<lparr>last_ocr_time = t0, word_boxes = None\<rparr> its"

text \<open>The state in which pass \<open>i\<close> of a run starts.\<close>

definition state_before :: "loop_state \<Rightarrow> (loop_state \<times> frame) list \<Rightarrow> nat \<Rightarrow> loop_state" where
  "state_before st trace i = (if i = 0 then st else fst (trace ! (i - 1)))"



section \<open>Concrete inputs\<close>

definition sample_data :: ocr_data where
  "sample_data = \<lparr>d_text = [''Apple'', ''pear'', ''BANANA'', ''''],
                   d_conf = [96, 90, 0, -1],
                   d_left = [1, 2, 3, 4], d_top = [10, 20, 30, 40],
                   d_width = [5, 6, 7, 8], d_height = [11, 12, 13, 14]\<rparr>"

definition apple_data :: ocr_data where
  "apple_data = \<lparr>d_text = [''apple''], d_conf = [90],
                  d_left = [0], d_top = [0], d_width = [0], d_height = [0]\<rparr>"

definition pear_data :: ocr_data where
  "pear_data = \<lparr>d_text = [''pear''], d_conf = [90],
                 d_left = [0], d_top = [0], d_width = [0], d_height = [0]\<rparr>"

definition privacy_data :: ocr_data where
  "privacy_data = \<lparr>d_text = [''555-123-4567'', ''Apples!'', ''pear'', ''10.0.0.1''],
                    d_conf = [80, 70, 60, 0],
                    d_left = [1, 2, 3, 4], d_top = [10, 20, 30, 40],
                    d_width = [5, 6, 7, 8], d_height = [11, 12, 13, 14]\<rparr>"

definition black_frame :: frame where
  "black_frame = replicate 20 (replicate 20 (0, 0, 0))"

definition black2 :: frame where
  "black2 = [[(0, 0, 0), (0, 0, 0)], [(0, 0, 0), (0, 0, 0)]]"

definition white2 :: frame where
  "white2 = [[(255, 255, 255), (255, 255, 255)], [(255, 255, 255), (255, 255, 255)]]"


definition pass_detect :: iteration where
  "pass_detect = \<lparr>grabbed = black2, clock_test = 1, clock_set = 1, ocr = apple_data, key = -1\<rparr>"

definition pass_nothing :: iteration where
  "pass_nothing = \<lparr>grabbed = black2, clock_test = 2, clock_set = 2, ocr = pear_data, key = 113\<rparr>"

definition start_state :: loop_state where
  "start_state = \<lparr>last_ocr_time = 0, word_boxes = None\<rparr>"


definition run_nothing :: "(loop_state \<times> frame) list" where
  "run_nothing = [(\<lparr>last_ocr_time = 1, word_boxes = Some [(0, 0, 0, 0)]\<rparr>, white2),
                  (\<lparr>last_ocr_time = 2, word_boxes = Some []\<rparr>, black2)]"

section \<open>Properties of the box tracker\<close>

lemma sqrt_less_iff_square:
  assumes "0 \<le> d"
  shows "(sqrt d < t) = (0 < t \<and> d < t\<^sup>2)"
proof
  assume lt: "sqrt d < t"
  have nonneg: "0 \<le> sqrt d" using assms by simp
  then have pos: "0 < t" using lt by linarith
  have "(sqrt d)\<^sup>2 < t\<^sup>2"
    by (rule power_strict_mono [OF lt nonneg]) simp
  then show "0 < t \<and> d < t\<^sup>2" using pos assms by simp
next
  assume "0 < t \<and> d < t\<^sup>2"
  then show "sqrt d < t" by (simp add: real_less_lsqrt)
qed

lemma is_matching_box_square:
  "is_matching_box (x1, y1, w1, h1) (x2, y2, w2, h2) t =
     (0 < t \<and>
      (real_of_int x1 + real_of_int w1 / 2 - (real_of_int x2 + real_of_int w2 / 2))\<^sup>2 +
      (real_of_int y1 + real_of_int h1 / 2 - (real_of_int y2 + real_of_int h2 / 2))\<^sup>2 < t\<^sup>2)"
  by (simp add: is_matching_box_def Let_def sqrt_less_iff_square)

lemma foldl_append_if:
  "foldl (\<lambda>acc x. if P x then acc @ [x] else acc) acc0 xs = acc0 @ filter P xs"
  by (induction xs arbitrary: acc0) simp_all

text \<open>
  C8. The centre-distance test is symmetric in its two boxes, for every threshold.
\<close>

theorem is_matching_box_symmetric:
  "is_matching_box a b t = is_matching_box b a t"
  by (cases a, cases b) (simp add: is_matching_box_def Let_def power2_commute)

text \<open>
  C4. The merge returns the current boxes that match no previous box (default
  threshold 10), in their original order, followed by the whole previous list; so the
  result is at least as long as the previous list, and merging no detections returns
  the previous list.
\<close>

theorem update_word_boxes_spec:
  "update_word_boxes previous current =
     filter (\<lambda>b. \<not> (\<exists>p \<in> set previous. is_matching_box b p 10)) current @ previous
   \<and> length previous \<le> length (update_word_boxes previous current)
   \<and> update_word_boxes previous [] = previous"
  by (simp add: update_word_boxes_def foldl_append_if list_ex_iff)

theorem update_word_boxes_spec_witness:
  "update_word_boxes [(10, 10, 20, 20)] [(11, 11, 20, 20), (500, 500, 20, 20)] =
     [(500, 500, 20, 20), (10, 10, 20, 20)]
   \<and> length [(10, 10, 20, 20) :: box]
       \<le> length (update_word_boxes [(10, 10, 20, 20)] [(11, 11, 20, 20), (500, 500, 20, 20)])
   \<and> update_word_boxes [(10, 10, 20, 20)] [] = [(10, 10, 20, 20)]"
  using update_word_boxes_spec [of "[(10, 10, 20, 20)]" "[(11, 11, 20, 20), (500, 500, 20, 20)]"]
        update_word_boxes_spec [of "[(10, 10, 20, 20)]" "[]"]
  by (simp add: is_matching_box_square)

section \<open>Properties of the word variations\<close>

lemma length_variations_of_word: "length (variations_of_word w) = 48"
  by (simp add: variations_of_word_def punctuation_marks_def)

lemma variations_of_word_members:
  assumes "(v, s) \<in> {(lower w, ''s''), (upper w, ''S''), (capitalize w, ''s'')}"
  shows "v \<in> set (variations_of_word w) \<and> v @ s \<in> set (variations_of_word w)
        \<and> (\<forall>mark \<in> set punctuation_marks.
              v @ mark \<in> set (variations_of_word w) \<and> v @ s @ mark \<in> set (variations_of_word w))"
  using assms by (auto simp: variations_of_word_def)

lemma variations_of_word_subset:
  assumes "w \<in> set ws \<union> {''apple'', ''banana'', ''password''}"
  shows "set (variations_of_word w) \<subseteq> set (generate_word_variations ws)"
  using assms by (auto simp: generate_word_variations_def default_words_def)

lemma lower_defaults:
  "lower ''apple'' = ''apple''" "lower ''banana'' = ''banana''" "lower ''password'' = ''password''"
  by (simp_all add: lower_def lower_char_def)

text \<open>
  C6. For every word list, the generated variations contain the three default words,
  and for every word of the list and every default word: its lower-case, upper-case
  and capitalised forms, each of them followed by each of the seven punctuation marks,
  the plural of each (\<open>s\<close>, or \<open>S\<close> for the upper-case form), and each plural followed by
  each mark. Every word contributes 48 entries.
\<close>

theorem generate_word_variations_contents:
  "''apple'' \<in> set (generate_word_variations ws)
   \<and> ''banana'' \<in> set (generate_word_variations ws)
   \<and> ''password'' \<in> set (generate_word_variations ws)
   \<and> (\<forall>w \<in> set ws \<union> {''apple'', ''banana'', ''password''}.
        \<forall>(v, s) \<in> {(lower w, ''s''), (upper w, ''S''), (capitalize w, ''s'')}.
          v \<in> set (generate_word_variations ws)
          \<and> v @ s \<in> set (generate_word_variations ws)
          \<and> (\<forall>mark \<in> set punctuation_marks.
                v @ mark \<in> set (generate_word_variations ws)
                \<and> v @ s @ mark \<in> set (generate_word_variations ws)))
   \<and> length (generate_word_variations ws) = 48 * (length ws + 3)"
proof -
  have defaults: "''apple'' \<in> set (generate_word_variations ws)"
    "''banana'' \<in> set (generate_word_variations ws)"
    "''password'' \<in> set (generate_word_variations ws)"
    using variations_of_word_subset [of "''apple''" ws]
      variations_of_word_members [of "''apple''" "''s''" "''apple''"]
      variations_of_word_subset [of "''banana''" ws]
      variations_of_word_members [of "''banana''" "''s''" "''banana''"]
      variations_of_word_subset [of "''password''" ws]
      variations_of_word_members [of "''password''" "''s''" "''password''"]
      lower_defaults
    by auto
  have total: "length (generate_word_variations ws) = 48 * (length ws + 3)"
    by (simp add: generate_word_variations_def default_words_def length_concat comp_def
        length_variations_of_word sum_list_triv)
  have each: "\<forall>w \<in> set ws \<union> {''apple'', ''banana'', ''password''}.
        \<forall>(v, s) \<in> {(lower w, ''s''), (upper w, ''S''), (capitalize w, ''s'')}.
          v \<in> set (generate_word_variations ws)
          \<and> v @ s \<in> set (generate_word_variations ws)
          \<and> (\<forall>mark \<in> set punctuation_marks.
                v @ mark \<in> set (generate_word_variations ws)
                \<and> v @ s @ mark \<in> set (generate_word_variations ws))"
  proof (intro ballI, clarify)
    fix w v s
    assume w: "w \<in> set ws \<union> {''apple'', ''banana'', ''password''}"
      and vs: "(v, s) \<in> {(lower w, ''s''), (upper w, ''S''), (capitalize w, ''s'')}"
    show "v \<in> set (generate_word_variations ws)
          \<and> v @ s \<in> set (generate_word_variations ws)
          \<and> (\<forall>mark \<in> set punctuation_marks.
                v @ mark \<in> set (generate_word_variations ws)
                \<and> v @ s @ mark \<in> set (generate_word_variations ws))"
      using variations_of_word_subset [OF w] variations_of_word_members [OF vs] by blast
  qed
  show ?thesis using defaults total each by blast
qed

theorem generate_word_variations_contents_witness:
  "''SECRETS?'' \<in> set (generate_word_variations [''Secret''])
   \<and> ''Secret--'' \<in> set (generate_word_variations [''Secret''])
   \<and> ''secret'' \<in> set (generate_word_variations [''Secret''])
   \<and> ''apple'' \<in> set (generate_word_variations [''Secret''])
   \<and> length (generate_word_variations [''Secret'']) = 192"
proof -
  have up: "upper ''Secret'' = ''SECRET''" and cap: "capitalize ''Secret'' = ''Secret''"
    and low: "lower ''Secret'' = ''secret''"
    by (simp_all add: upper_def upper_char_def capitalize_def lower_def lower_char_def)
  show ?thesis
    using generate_word_variations_contents [of "[''Secret'']"]
    by (simp add: up cap low punctuation_marks_def)
qed

section \<open>Properties of exact-mode matching\<close>

lemma ocr_loop_well_formed:
  assumes "length (d_conf data) = n" "length (d_left data) = n" "length (d_top data) = n"
    "length (d_width data) = n" "length (d_height data) = n"
  shows "i + length ts = n \<Longrightarrow>
     ocr_loop m data i ts acc =
       Inr (acc @ map (box_at data) (filter (\<lambda>j. m (ts ! (j - i)) \<and> 0 < d_conf data ! j) [i..<n]))"
proof (induction ts arbitrary: i acc)
  case Nil
  then show ?case by simp
next
  case (Cons t ts)
  have lt: "i < n" using Cons.prems by simp
  have step: "Suc i + length ts = n" using Cons.prems by simp
  have shift: "filter (\<lambda>j. m ((t # ts) ! (j - i)) \<and> 0 < d_conf data ! j) [Suc i..<n]
             = filter (\<lambda>j. m (ts ! (j - Suc i)) \<and> 0 < d_conf data ! j) [Suc i..<n]"
  proof (rule filter_cong [OF refl])
    fix j assume "j \<in> set [Suc i..<n]"
    then have "j - i = Suc (j - Suc i)" by auto
    then show "(m ((t # ts) ! (j - i)) \<and> 0 < d_conf data ! j)
             = (m (ts ! (j - Suc i)) \<and> 0 < d_conf data ! j)" by simp
  qed
  show ?case
    using lt assms
    by (simp add: Cons.IH [OF step] py_index_def upt_conv_Cons shift box_at_def)
qed

lemma ocr_loop_tokens:
  assumes "well_formed data"
  shows "ocr_loop m data 0 (d_text data) [] =
     Inr (map (box_at data)
            (filter (\<lambda>i. m (d_text data ! i) \<and> 0 < d_conf data ! i) [0..<length (d_text data)]))"
  using assms ocr_loop_well_formed [of data "length (d_text data)" 0 "d_text data" m "[]"]
  by (simp add: well_formed_def)

text \<open>
  C7. In exact mode, on well-formed OCR output, the boxes returned are those of exactly
  the tokens whose lower-case text is in the word list and whose confidence is greater
  than 0, in scan order; so when no token has a positive confidence, no box is
  returned.
\<close>

theorem perform_ocr_exact:
  assumes "well_formed data"
  shows "perform_ocr data words =
           map (box_at data)
               (filter (\<lambda>i. lower (d_text data ! i) \<in> set words \<and> 0 < d_conf data ! i)
                       [0..<length (d_text data)])
         \<and> ((\<forall>i < length (d_text data). d_conf data ! i \<le> 0) \<longrightarrow> perform_ocr data words = [])"
proof -
  have eq: "perform_ocr data words =
           map (box_at data)
               (filter (\<lambda>i. lower (d_text data ! i) \<in> set words \<and> 0 < d_conf data ! i)
                       [0..<length (d_text data)])"
    by (simp add: perform_ocr_def ocr_loop_tokens [OF assms])
  have "perform_ocr data words = []" if "\<forall>i < length (d_text data). d_conf data ! i \<le> 0"
    unfolding eq using that by (auto simp: filter_empty_conv)
  then show ?thesis using eq by blast
qed

theorem perform_ocr_exact_witness:
  "well_formed sample_data
   \<and> perform_ocr sample_data [''apple'', ''banana''] = [(1, 10, 5, 11)]"
proof -
  have wf: "well_formed sample_data"
    by (simp add: well_formed_def sample_data_def)
  show ?thesis
    using wf perform_ocr_exact [OF wf, of "[''apple'', ''banana'']"]
    by (simp add: sample_data_def box_at_def lower_def lower_char_def upt_conv_Cons)
qed

section \<open>Properties of the redaction\<close>

lemma length_rectangle: "length (rectangle img pt1 pt2 color) = length img"
  by (simp add: rectangle_def)

lemma length_row_rectangle:
  "r < length img \<Longrightarrow> length (rectangle img pt1 pt2 color ! r) = length (img ! r)"
  by (simp add: rectangle_def nth_enumerate_eq)

lemma pixel_rectangle:
  "r < length img \<Longrightarrow> c < length (img ! r) \<Longrightarrow>
   rectangle img pt1 pt2 color ! r ! c =
     (if min (fst pt1) (fst pt2) \<le> int c \<and> int c \<le> max (fst pt1) (fst pt2) \<and>
         min (snd pt1) (snd pt2) \<le> int r \<and> int r \<le> max (snd pt1) (snd pt2)
      then color else img ! r ! c)"
  by (simp add: rectangle_def nth_enumerate_eq)

lemma shape_redact_words:
  "length (redact_words img boxes padding) = length img \<and>
   (\<forall>r < length img. length (redact_words img boxes padding ! r) = length (img ! r))"
proof (induction boxes arbitrary: img)
  case Nil
  show ?case by (simp add: redact_words_def)
next
  case (Cons b bs)
  obtain x y w h where b: "b = (x, y, w, h)" by (cases b) auto
  show ?case
    using Cons.IH [of "rectangle img (x - padding, y - padding)
                        (x - padding + (w + 2 * padding), y - padding + (h + 2 * padding))
                        (255, 255, 255)"]
    by (simp add: redact_words_def b Let_def length_rectangle length_row_rectangle)
qed

lemma pixel_redact_words_outside:
  assumes "r < length img" "c < length (img ! r)"
    "\<forall>(x, y, w, h) \<in> set boxes.
       \<not> (min (x - p) (x + w + p) \<le> int c \<and> int c \<le> max (x - p) (x + w + p) \<and>
          min (y - p) (y + h + p) \<le> int r \<and> int r \<le> max (y - p) (y + h + p))"
  shows "redact_words img boxes p ! r ! c = img ! r ! c"
  using assms
proof (induction boxes arbitrary: img)
  case Nil
  show ?case by (simp add: redact_words_def)
next
  case (Cons b bs)
  obtain x y w h where b: "b = (x, y, w, h)" by (cases b) auto
  let ?img = "rectangle img (x - p, y - p) (x - p + (w + 2 * p), y - p + (h + 2 * p))
                (255, 255, 255)"
  have unfold: "redact_words img (b # bs) p = redact_words ?img bs p"
    by (simp add: redact_words_def b Let_def)
  have r: "r < length ?img" using Cons.prems(1) by (simp add: length_rectangle)
  have c: "c < length (?img ! r)" using Cons.prems(1,2) by (simp add: length_row_rectangle)
  have rest: "\<forall>(x, y, w, h) \<in> set bs.
       \<not> (min (x - p) (x + w + p) \<le> int c \<and> int c \<le> max (x - p) (x + w + p) \<and>
          min (y - p) (y + h + p) \<le> int r \<and> int r \<le> max (y - p) (y + h + p))"
    using Cons.prems(3) by simp
  have here: "\<not> (min (x - p) (x + w + p) \<le> int c \<and> int c \<le> max (x - p) (x + w + p) \<and>
          min (y - p) (y + h + p) \<le> int r \<and> int r \<le> max (y - p) (y + h + p))"
    using Cons.prems(3) by (simp add: b)
  have corner: "x - p + (w + 2 * p) = x + w + p" "y - p + (h + 2 * p) = y + h + p" by simp_all
  have "?img ! r ! c = img ! r ! c"
    using here Cons.prems(1,2) by (simp only: pixel_rectangle corner fst_conv snd_conv if_False)
  then show ?case
    using Cons.IH [OF r c rest] by (simp add: unfold)
qed

text \<open>
  C9. After \<open>redact_words(frame, [(5, 5, 10, 10)], padding=1)\<close> every pixel of the frame
  in columns 4 to 16 and rows 4 to 16 holds the fill colour \<open>(255, 255, 255)\<close>.
\<close>

theorem redact_words_example:
  assumes "r < length img" "c < length (img ! r)" "4 \<le> c" "c \<le> 16" "4 \<le> r" "r \<le> 16"
  shows "redact_words img [(5, 5, 10, 10)] 1 ! r ! c = (255, 255, 255)"
  using assms by (simp add: redact_words_def Let_def pixel_rectangle)

theorem redact_words_example_witness:
  "redact_words black_frame [(5, 5, 10, 10)] 1 ! 16 ! 4 = (255, 255, 255)
   \<and> redact_words black_frame [(5, 5, 10, 10)] 1 ! 4 ! 16 = (255, 255, 255)"
  using redact_words_example [of 16 black_frame 4] redact_words_example [of 4 black_frame 16]
  by (simp add: black_frame_def)

text \<open>
  C10. \<open>redact_words\<close> changes only pixels inside the rectangles it paints: a pixel of the
  frame that lies in none of the boxes' rectangles, each spanned by the corners
  \<open>(x - padding, y - padding)\<close> and \<open>(x + w + padding, y + h + padding)\<close>, keeps its
  value, and the frame keeps its shape.
\<close>

theorem redact_words_frame:
  assumes "r < length img" "c < length (img ! r)"
    "\<forall>(x, y, w, h) \<in> set boxes.
       \<not> (min (x - p) (x + w + p) \<le> int c \<and> int c \<le> max (x - p) (x + w + p) \<and>
          min (y - p) (y + h + p) \<le> int r \<and> int r \<le> max (y - p) (y + h + p))"
  shows "redact_words img boxes p ! r ! c = img ! r ! c
         \<and> length (redact_words img boxes p) = length img
         \<and> length (redact_words img boxes p ! r) = length (img ! r)"
  using pixel_redact_words_outside [OF assms] shape_redact_words [of img boxes p] assms(1)
  by simp

theorem redact_words_frame_witness:
  "redact_words black_frame [(5, 5, 10, 10), (0, 0, 1, 1)] 1 ! 17 ! 4 = (0, 0, 0)
   \<and> length (redact_words black_frame [(5, 5, 10, 10), (0, 0, 1, 1)] 1) = 20
   \<and> length (redact_words black_frame [(5, 5, 10, 10), (0, 0, 1, 1)] 1 ! 17) = 20"
  using redact_words_frame [of 17 black_frame 4 "[(5, 5, 10, 10), (0, 0, 1, 1)]" 1]
  by (simp add: black_frame_def)

section \<open>Properties of the patterns\<close>

lemma iterate_numeral:
  "iterate f (numeral k) js = iterate f (pred_numeral k) (concat (map f js))"
  by (simp add: numeral_eq_Suc)

lemma upto_ends_numeral:
  "upto_ends f (numeral k) js = js @ upto_ends f (pred_numeral k) (concat (map f js))"
  by (simp add: numeral_eq_Suc)

lemmas compile_simps = re_compile_def top_step_def top_escape_def category_def is_digit_def
  is_alnum_def class_escape_def flush_def add_digit_def build_def mk_seq_def wrap_def lit_def
  mk_range_def

lemmas match_simps = re_match_def rep_ends_def at_boundary_def is_digit_def is_space_def
  is_word_def is_alnum_def iterate_numeral upto_ends_numeral

lemma compile_phone_number_patterns:
  "map re_compile phone_number_patterns =
     [Some (Inr (Cat Boundary
        (Cat (Rep (Sym False [CDigit True]) 3 (Some 3))
        (Cat (Rep (Sym False [CLit CHR ''-'', CLit CHR ''.'', CSpace True]) 0 (Some 1))
        (Cat (Rep (Sym False [CDigit True]) 3 (Some 3))
        (Cat (Rep (Sym False [CLit CHR ''-'', CLit CHR ''.'', CSpace True]) 0 (Some 1))
        (Cat (Rep (Sym False [CDigit True]) 4 (Some 4))
        (Cat Boundary Eps)))))))),
      Some (Inr (Cat (Sym False [CLit CHR ''(''])
        (Cat (Rep (Sym False [CDigit True]) 3 (Some 3))
        (Cat (Sym False [CLit CHR '')''])
        (Cat (Rep (Sym False [CSpace True]) 0 None)
        (Cat (Rep (Sym False [CDigit True]) 3 (Some 3))
        (Cat (Rep (Sym False [CLit CHR ''-'', CLit CHR ''.'', CSpace True]) 0 (Some 1))
        (Cat (Rep (Sym False [CDigit True]) 4 (Some 4))
        (Cat Boundary Eps)))))))))]"
  by (simp add: phone_number_patterns_def compile_simps)

lemma compile_ssn_patterns:
  "map re_compile ssn_patterns =
     [Some (Inr (Cat Boundary
        (Cat (Rep (Sym False [CDigit True]) 3 (Some 3))
        (Cat (Rep (Sym False [CLit CHR ''-'', CLit CHR ''.'', CSpace True]) 0 (Some 1))
        (Cat (Rep (Sym False [CDigit True]) 2 (Some 2))
        (Cat (Rep (Sym False [CLit CHR ''-'', CLit CHR ''.'', CSpace True]) 0 (Some 1))
        (Cat (Rep (Sym False [CDigit True]) 4 (Some 4))
        (Cat Boundary Eps))))))))]"
  by (simp add: ssn_patterns_def compile_simps)

lemma compile_ip_address_patterns:
  "map re_compile ip_address_patterns =
     [Some (Inr (Cat Boundary
        (Cat (Rep (Cat (Rep (Sym False [CDigit True]) 1 (Some 3))
                  (Cat (Sym False [CLit CHR ''.'']) Eps)) 3 (Some 3))
        (Cat (Rep (Sym False [CDigit True]) 1 (Some 3))
        (Cat Boundary Eps))))),
      Some (Inr (Cat Boundary
        (Cat (Rep (Cat (Rep (Sym False [CDigit True]) 1 (Some 3))
                  (Cat (Sym False [CLit CHR ''.'']) Eps)) 3 (Some 3))
        (Cat (Rep (Sym False [CDigit True]) 1 (Some 3))
        (Cat (Ahead False (Cat (Sym False [CDigit True, CLit CHR ''.'']) Eps))
        (Cat Boundary Eps)))))),
      Some (Inr (Cat Boundary
        (Cat (Rep (Cat (Rep (Sym False [CRange CHR ''0'' CHR ''9'', CRange CHR ''a'' CHR ''f'',
                                         CRange CHR ''A'' CHR ''F'']) 1 (Some 4))
                  (Cat (Sym False [CLit CHR '':'']) Eps)) 7 (Some 7))
        (Cat (Rep (Sym False [CRange CHR ''0'' CHR ''9'', CRange CHR ''a'' CHR ''f'',
                               CRange CHR ''A'' CHR ''F'']) 1 (Some 4))
        (Cat Boundary Eps)))))]"
  by (simp add: ip_address_patterns_def compile_simps)

lemma fixed_patterns_compile:
  "list_all compiles (phone_number_patterns @ ssn_patterns @ ip_address_patterns)"
  using compile_phone_number_patterns compile_ssn_patterns compile_ip_address_patterns
  by (simp add: list_all_iff compiles_def phone_number_patterns_def ssn_patterns_def
      ip_address_patterns_def)

lemma phone_number_matches_phone:
  "\<exists>p \<in> set phone_number_patterns. pattern_matches p ''555-123-4567''"
  using compile_phone_number_patterns
  by (simp add: phone_number_patterns_def pattern_matches_def match_simps)

lemma phone_number_rejected_by_ssn:
  "\<not> (\<exists>p \<in> set ssn_patterns. pattern_matches p ''555-123-4567'')"
  using compile_ssn_patterns
  by (simp add: ssn_patterns_def pattern_matches_def match_simps)

lemma ssn_matches_ssn:
  "\<exists>p \<in> set ssn_patterns. pattern_matches p ''123-45-6789''"
  using compile_ssn_patterns
  by (simp add: ssn_patterns_def pattern_matches_def match_simps)

lemma ssn_rejected_by_phone:
  "\<not> (\<exists>p \<in> set phone_number_patterns. pattern_matches p ''123-45-6789'')"
  using compile_phone_number_patterns
  by (simp add: phone_number_patterns_def pattern_matches_def match_simps)

text \<open>
  C5. Under \<open>match\<close>, \<open>555-123-4567\<close> matches a phone-number pattern and not the SSN
  pattern, and \<open>123-45-6789\<close> matches the SSN pattern and no phone-number pattern; all
  three patterns compile.
\<close>

theorem phone_and_ssn_not_cross_matched:
  "list_all compiles (phone_number_patterns @ ssn_patterns)
   \<and> (\<exists>p \<in> set phone_number_patterns. pattern_matches p ''555-123-4567'')
   \<and> \<not> (\<exists>p \<in> set ssn_patterns. pattern_matches p ''555-123-4567'')
   \<and> (\<exists>p \<in> set ssn_patterns. pattern_matches p ''123-45-6789'')
   \<and> \<not> (\<exists>p \<in> set phone_number_patterns. pattern_matches p ''123-45-6789'')"
proof -
  have "list_all compiles (phone_number_patterns @ ssn_patterns)"
    using fixed_patterns_compile by simp
  then show ?thesis
    using phone_number_matches_phone phone_number_rejected_by_ssn ssn_matches_ssn
      ssn_rejected_by_phone
    by blast
qed

section \<open>Properties of privacy-mode matching\<close>

lemma compile_all_compiles:
  assumes "list_all compiles ps"
  shows "\<exists>rs. compile_all ps = Some (Inr rs)
           \<and> (\<forall>t. list_ex (\<lambda>r. re_match r t) rs = (\<exists>p \<in> set ps. pattern_matches p t))"
  using assms
proof (induction ps)
  case Nil
  show ?case by simp
next
  case (Cons p ps)
  from Cons.prems obtain r where r: "re_compile p = Some (Inr r)"
    by (auto simp: compiles_def split: option.splits sum.splits)
  from Cons obtain rs where rs: "compile_all ps = Some (Inr rs)"
    and ex: "\<forall>t. list_ex (\<lambda>r. re_match r t) rs = (\<exists>p \<in> set ps. pattern_matches p t)"
    by auto
  have "compile_all (p # ps) = Some (Inr (r # rs))" by (simp add: r rs)
  moreover have "\<forall>t. list_ex (\<lambda>r. re_match r t) (r # rs)
                   = (\<exists>q \<in> set (p # ps). pattern_matches q t)"
    using ex by (simp add: pattern_matches_def r)
  ultimately show ?case by blast
qed

lemma perform_ocr_privacy_mode_boxes:
  assumes wf: "well_formed data" and ok: "list_all compiles ps"
  shows "perform_ocr_privacy_mode data ps =
           Some (map (box_at data)
                  (filter (\<lambda>i. (\<exists>p \<in> set ps. pattern_matches p (d_text data ! i))
                                \<and> 0 < d_conf data ! i)
                          [0..<length (d_text data)]))"
proof -
  from compile_all_compiles [OF ok] obtain rs where rs: "compile_all ps = Some (Inr rs)"
    and ex: "\<forall>t. list_ex (\<lambda>r. re_match r t) rs = (\<exists>p \<in> set ps. pattern_matches p t)"
    by blast
  show ?thesis
    by (simp add: perform_ocr_privacy_mode_def rs ocr_loop_tokens [OF wf] ex)
qed

lemma lower_apple: "lower ''apple'' = ''apple''"
  by (simp add: lower_def lower_char_def)

lemma capitalize_apple: "capitalize ''apple'' = ''Apple''"
  by (simp add: capitalize_def upper_char_def lower_char_def)

text \<open>
  When the user enters no word, \<open>words_to_redact\<close> is the default list, and
  \<open>generate_word_variations\<close> extends it by the defaults once more.
\<close>

lemma default_variations:
  "generate_word_variations default_words =
     variations_of_word ''apple'' @ variations_of_word ''banana'' @ variations_of_word ''password''
     @ variations_of_word ''apple'' @ variations_of_word ''banana'' @ variations_of_word ''password''"
  by (simp add: generate_word_variations_def default_words_def)

lemma variations_compile:
  "list_all compiles (variations_of_word ''apple'')"
  "list_all compiles (variations_of_word ''banana'')"
  "list_all compiles (variations_of_word ''password'')"
  by (simp_all add: variations_of_word_def punctuation_marks_def lower_def upper_def
      capitalize_def lower_char_def upper_char_def compiles_def compile_simps)

lemma default_list_compiles: "list_all compiles (words_to_detect default_words True)"
  using variations_compile fixed_patterns_compile
  by (simp add: words_to_detect_def default_variations)

lemma apple_matches: "pattern_matches ''apple'' ''apple''"
  by (simp add: pattern_matches_def compile_simps match_simps)

lemma apple_in_list: "''apple'' \<in> set (generate_word_variations default_words)"
  by (simp add: default_variations variations_of_word_def lower_apple)

lemma capital_apple_in_list: "''Apple'' \<in> set (generate_word_variations default_words)"
  by (simp add: default_variations variations_of_word_def capitalize_apple)

lemma capital_apple_matches: "pattern_matches ''Apple'' ''Apples!''"
  by (simp add: pattern_matches_def compile_simps match_simps)

lemma fixed_patterns_reject_apple:
  "\<not> (\<exists>p \<in> set (phone_number_patterns @ ssn_patterns @ ip_address_patterns).
         pattern_matches p ''apple'')"
  using compile_phone_number_patterns compile_ssn_patterns compile_ip_address_patterns
  by (simp add: phone_number_patterns_def ssn_patterns_def ip_address_patterns_def
      pattern_matches_def match_simps)

lemma fixed_patterns_reject_pear:
  "\<not> (\<exists>p \<in> set (phone_number_patterns @ ssn_patterns @ ip_address_patterns).
         pattern_matches p ''pear'')"
  using compile_phone_number_patterns compile_ssn_patterns compile_ip_address_patterns
  by (simp add: phone_number_patterns_def ssn_patterns_def ip_address_patterns_def
      pattern_matches_def match_simps)

lemma variations_reject_pear:
  "\<not> (\<exists>p \<in> set (variations_of_word ''apple'' @ variations_of_word ''banana''
                   @ variations_of_word ''password'').
         pattern_matches p ''pear'')"
  by (simp add: variations_of_word_def punctuation_marks_def lower_def
      upper_def capitalize_def lower_char_def upper_char_def pattern_matches_def
      compile_simps match_simps)

text \<open>
  C3, as stated, fails: in privacy mode the list handed to the matcher is the word
  variations followed by the six patterns, so the token \<open>apple\<close> (confidence 90) is given
  a box although none of the six patterns matches it.
\<close>

theorem privacy_mode_word_list_counterexample:
  "perform_ocr_privacy_mode apple_data (words_to_detect default_words True) = Some [(0, 0, 0, 0)]
   \<and> d_text apple_data = [''apple''] \<and> d_conf apple_data = [90]
   \<and> \<not> (\<exists>p \<in> set (phone_number_patterns @ ssn_patterns @ ip_address_patterns).
           pattern_matches p ''apple'')"
proof -
  have wf: "well_formed apple_data" by (simp add: well_formed_def apple_data_def)
  have hit: "\<exists>p \<in> set (words_to_detect default_words True). pattern_matches p ''apple''"
    using apple_in_list apple_matches by (auto simp: words_to_detect_def)
  have tx: "d_text apple_data = [''apple'']" and cf: "d_conf apple_data = [90]"
    and bx: "box_at apple_data 0 = (0, 0, 0, 0)"
    by (simp_all add: apple_data_def box_at_def)
  have "perform_ocr_privacy_mode apple_data (words_to_detect default_words True)
          = Some [(0, 0, 0, 0)]"
    unfolding perform_ocr_privacy_mode_boxes [OF wf default_list_compiles] tx cf
    using hit by (simp add: bx)
  then show ?thesis
    using fixed_patterns_reject_apple by (simp add: apple_data_def)
qed

text \<open>
  C3, amended. In privacy mode, on well-formed OCR output and when every string of the
  list compiles, the boxes returned are those of exactly the tokens whose text matches,
  from its first character on, at least one string of the list handed to the matcher
  (a word variation, read as a pattern, or one of the six fixed patterns) and whose
  confidence is greater than 0.
\<close>

theorem privacy_mode_matching:
  assumes "well_formed data" "list_all compiles (words_to_detect ws True)"
  shows "perform_ocr_privacy_mode data (words_to_detect ws True) =
           Some (map (box_at data)
                  (filter (\<lambda>i. (\<exists>p \<in> set (generate_word_variations ws) \<union> set phone_number_patterns
                                          \<union> set ssn_patterns \<union> set ip_address_patterns.
                                    pattern_matches p (d_text data ! i))
                                \<and> 0 < d_conf data ! i)
                          [0..<length (d_text data)]))"
proof -
  have "set (words_to_detect ws True) =
          set (generate_word_variations ws) \<union> set phone_number_patterns
            \<union> set ssn_patterns \<union> set ip_address_patterns"
    by (auto simp: words_to_detect_def)
  then show ?thesis
    using perform_ocr_privacy_mode_boxes [OF assms] by simp
qed

theorem privacy_mode_matching_witness:
  "well_formed privacy_data \<and> list_all compiles (words_to_detect default_words True)
   \<and> perform_ocr_privacy_mode privacy_data (words_to_detect default_words True)
       = Some [(1, 10, 5, 11), (2, 20, 6, 12)]"
proof -
  define hit where "hit = (\<lambda>t. \<exists>p \<in> set (generate_word_variations default_words)
                                  \<union> set phone_number_patterns
                                  \<union> set ssn_patterns \<union> set ip_address_patterns.
                               pattern_matches p t)"
  have wf: "well_formed privacy_data" by (simp add: well_formed_def privacy_data_def)
  have h0: "hit ''555-123-4567''"
    unfolding hit_def using phone_number_matches_phone by blast
  have h1: "hit ''Apples!''"
    unfolding hit_def using capital_apple_in_list capital_apple_matches by blast
  have h2: "\<not> hit ''pear''"
    unfolding hit_def using variations_reject_pear fixed_patterns_reject_pear
    by (auto simp: default_variations)
  have "perform_ocr_privacy_mode privacy_data (words_to_detect default_words True)
          = Some (map (box_at privacy_data)
                   (filter (\<lambda>i. hit (d_text privacy_data ! i) \<and> 0 < d_conf privacy_data ! i)
                           [0..<length (d_text privacy_data)]))"
    unfolding hit_def by (rule privacy_mode_matching [OF wf default_list_compiles])
  then have "perform_ocr_privacy_mode privacy_data (words_to_detect default_words True)
          = Some [(1, 10, 5, 11), (2, 20, 6, 12)]"
    using h0 h1 h2 by (simp add: privacy_data_def box_at_def upt_conv_Cons)
  then show ?thesis using wf default_list_compiles by blast
qed

section \<open>Properties of the capture loop\<close>

lemma detect_boxes_defined:
  assumes "privacy_mode \<longrightarrow> list_all compiles ws"
  shows "\<exists>boxes. detect_boxes privacy_mode ws data = Some boxes"
proof (cases privacy_mode)
  case True
  with assms obtain rs where "compile_all ws = Some (Inr rs)"
    using compile_all_compiles by blast
  then show ?thesis by (simp add: detect_boxes_def True perform_ocr_privacy_mode_def)
next
  case False
  then show ?thesis by (simp add: detect_boxes_def)
qed

text \<open>
  The loop gives a result for every list of passes: always in exact mode, and in
  privacy mode when every string of the list compiles.
\<close>

lemma capture_loop_defined:
  assumes "privacy_mode \<longrightarrow> list_all compiles ws"
  shows "\<exists>trace. capture_loop privacy_mode ws st its = Some trace"
proof (induction its arbitrary: st)
  case Nil
  show ?case by simp
next
  case (Cons it rest)
  obtain boxes where boxes: "detect_boxes privacy_mode ws (ocr it) = Some boxes"
    using detect_boxes_defined [OF assms] by blast
  have "\<exists>st' shown. loop_body privacy_mode ws st it = Some (st', shown)"
    by (simp add: loop_body_def Let_def boxes)
  then obtain st' shown where body: "loop_body privacy_mode ws st it = Some (st', shown)"
    by blast
  obtain trace where "capture_loop privacy_mode ws st' rest = Some trace"
    using Cons.IH by blast
  then show ?case by (simp add: body)
qed

text \<open>Every entry of the result is what \<open>loop_body\<close> gives for that pass.\<close>

lemma capture_loop_pass:
  assumes "capture_loop privacy_mode ws st its = Some trace" "i < length trace"
  shows "i < length its
         \<and> loop_body privacy_mode ws (state_before st trace i) (its ! i) = Some (trace ! i)"
  using assms
proof (induction its arbitrary: st trace i)
  case Nil
  then show ?case by simp
next
  case (Cons it rest)
  from Cons.prems(1) obtain st' shown
    where body: "loop_body privacy_mode ws st it = Some (st', shown)"
    by (auto split: option.splits)
  show ?case
  proof (cases "key it = 113 \<or> key it = 27")
    case True
    with Cons.prems body have "trace = [(st', shown)]" "i = 0" by auto
    then show ?thesis by (simp add: state_before_def body)
  next
    case False
    with Cons.prems(1) body obtain trace'
      where rest: "capture_loop privacy_mode ws st' rest = Some trace'"
        and trace: "trace = (st', shown) # trace'"
      by (auto split: option.splits)
    show ?thesis
    proof (cases i)
      case 0
      then show ?thesis by (simp add: trace state_before_def body)
    next
      case (Suc j)
      with Cons.prems(2) trace have j: "j < length trace'" by simp
      have before: "state_before st ((st', shown) # trace') (Suc j) = state_before st' trace' j"
        by (cases j) (simp_all add: state_before_def)
      from Cons.IH [OF rest j] show ?thesis
        by (simp add: Suc trace before)
    qed
  qed
qed

text \<open>The two outcomes of one pass.\<close>

lemma loop_body_cases:
  assumes "loop_body privacy_mode ws st it = Some (st', shown)"
  shows "(5 / 100 < clock_test it - last_ocr_time st \<longrightarrow>
            (\<exists>boxes. detect_boxes privacy_mode ws (ocr it) = Some boxes
                     \<and> st' = \<lparr>last_ocr_time = clock_set it, word_boxes = Some boxes\<rparr>
                     \<and> shown = redact_words (grabbed it) boxes 1))
         \<and> (\<not> 5 / 100 < clock_test it - last_ocr_time st \<longrightarrow> st' = st \<and> shown = grabbed it)"
  using assms by (auto simp: loop_body_def Let_def split: if_splits option.splits)

lemma redact_black2: "redact_words black2 [(0, 0, 0, 0)] 1 = white2"
  by (simp add: redact_words_def rectangle_def black2_def white2_def Let_def enumerate_eq_zip
      upt_conv_Cons)

lemma redact_nothing: "redact_words img [] 1 = img"
  by (simp add: redact_words_def)

lemma perform_ocr_apple: "perform_ocr apple_data [''apple''] = [(0, 0, 0, 0)]"
  by (simp add: perform_ocr_def apple_data_def py_index_def lower_def lower_char_def)

lemma perform_ocr_pear: "perform_ocr pear_data [''apple''] = []"
  by (simp add: perform_ocr_def pear_data_def py_index_def lower_def lower_char_def)

lemma white2_not_black2: "white2 \<noteq> black2"
  by (simp add: white2_def black2_def)



lemma capture_loop_run_nothing:
  "capture_loop False [''apple''] start_state [pass_detect, pass_nothing] = Some run_nothing"
  by (simp add: start_state_def pass_detect_def pass_nothing_def run_nothing_def loop_body_def
      detect_boxes_def Let_def perform_ocr_apple perform_ocr_pear redact_black2 redact_nothing)




text \<open>
  C2, as stated, fails: the loop never calls \<open>update_word_boxes\<close>. In the second pass
  below OCR finds nothing, and the loop's box list becomes empty, where the merge would
  have kept the box of the first pass.
\<close>

theorem merge_with_previous_counterexample:
  "capture_screen 0 [''apple''] False [pass_detect, pass_nothing] = Some run_nothing
   \<and> word_boxes (fst (run_nothing ! 0)) = Some [(0, 0, 0, 0)]
   \<and> word_boxes (fst (run_nothing ! 1)) = Some []
   \<and> update_word_boxes [(0, 0, 0, 0)] [] = [(0, 0, 0, 0)]"
  using capture_loop_run_nothing
  by (simp add: capture_screen_def start_state_def run_nothing_def update_word_boxes_def)

text \<open>
  C2, amended. In every pass in which OCR runs, the loop's box list becomes exactly the
  boxes detected in that pass, whatever it held before; in every other pass it is
  unchanged.
\<close>

theorem boxes_of_pass:
  assumes "capture_loop privacy_mode ws st its = Some trace" "i < length trace"
  shows "(5 / 100 < clock_test (its ! i) - last_ocr_time (state_before st trace i) \<longrightarrow>
            detect_boxes privacy_mode ws (ocr (its ! i)) \<noteq> None
            \<and> word_boxes (fst (trace ! i)) = detect_boxes privacy_mode ws (ocr (its ! i)))
         \<and> (\<not> 5 / 100 < clock_test (its ! i) - last_ocr_time (state_before st trace i) \<longrightarrow>
            word_boxes (fst (trace ! i)) = word_boxes (state_before st trace i))"
  using capture_loop_pass [OF assms]
    loop_body_cases [of privacy_mode ws "state_before st trace i" "its ! i"
      "fst (trace ! i)" "snd (trace ! i)"]
  by auto

theorem boxes_of_pass_witness:
  "capture_loop False [''apple''] start_state [pass_detect, pass_nothing] = Some run_nothing
   \<and> word_boxes (fst (run_nothing ! 0)) = Some (perform_ocr apple_data [''apple''])
   \<and> word_boxes (fst (run_nothing ! 1)) = Some (perform_ocr pear_data [''apple''])"
proof -
  have len: "0 < length run_nothing" "1 < length run_nothing" by (simp_all add: run_nothing_def)
  have first: "word_boxes (fst (run_nothing ! 0)) = Some (perform_ocr apple_data [''apple''])"
    using boxes_of_pass [OF capture_loop_run_nothing len(1)]
    by (simp add: state_before_def start_state_def pass_detect_def detect_boxes_def)
  have second: "word_boxes (fst (run_nothing ! 1)) = Some (perform_ocr pear_data [''apple''])"
    using boxes_of_pass [OF capture_loop_run_nothing len(2)]
    by (simp add: state_before_def run_nothing_def pass_nothing_def detect_boxes_def)
  show ?thesis using capture_loop_run_nothing first second by blast
qed

end
